theory Spec2Isabelle
  imports Complex_Main
begin

section \<open>Callbacks and the animation queue (turing.anim)\<close>

text \<open>
  JavaScript closures are defunctionalised: every closure the modelled code hands to
  \<^verbatim>\<open>turing.anim.delay\<close> or \<^verbatim>\<open>turing.anim.delayTicks\<close> is one constructor.
  \<^item> \<open>SimStep\<close> is \<^verbatim>\<open>goog.bind(this.step, this)\<close> of the simulator;
  \<^item> \<open>TapeScan t ms\<close> is the closure of \<^verbatim>\<open>scanLeft\<close>/\<^verbatim>\<open>scanRight\<close> of the tape at
    address \<open>t\<close>, which calls \<^verbatim>\<open>turing.anim.animate(..., scanTime, redrawTape_)\<close>;
  \<^item> \<open>TapeShowPrint t sym ms\<close> is \<^verbatim>\<open>goog.bind(this.showPrint_, this, symbol, printTime)\<close>;
  \<^item> \<open>TapeRedraw t\<close> is \<^verbatim>\<open>goog.bind(this.redrawTape_, this)\<close>;
  \<^item> \<open>Paint\<close> stands for the closures that only assign element styles;
  \<^item> \<open>User a\<close> is a closure of the caller, interpreted by a function given to the
    operations that invoke callbacks.
  Field names drop the trailing underscore of the source. Tick counts, event ids, step
  counts and wall-clock times are integers; durations and the tick period, doubles in the
  source, are exact rationals. Callbacks of the caller are total functions on the world.
  What the code draws (sprites, styles, highlights) is outside the model; the events it
  schedules for drawing are in it.
\<close>

datatype 'a callback =
    SimStep
  | TapeScan nat rat
  | TapeShowPrint nat string rat
  | TapeRedraw nat
  | Paint
  | User 'a

record 'a frame =
  ticks :: int
  call :: "'a callback"
  eventId :: int

record 'a anim =
  stopped :: bool
  queue :: "'a frame list"
  queueDirty :: bool
  curTick :: int
  nextEventId :: int
  lastTickStartTime :: int
  tooSlowTicks :: int
  msPerFrame :: rat

definition MAX_FPS_MS :: rat where
  "MAX_FPS_MS = 1000 / 60"

definition MIN_FPS_MS :: rat where
  "MIN_FPS_MS = 1000 / 20"

text \<open>The module state as the source initialises it.\<close>

definition anim_init :: "'a anim" where
  "anim_init = \<lparr> stopped = True, queue = [], queueDirty = False, curTick = 0,
     nextEventId = 1, lastTickStartTime = 0, tooSlowTicks = 0, msPerFrame = MAX_FPS_MS \<rparr>"

definition getNumTicks :: "rat \<Rightarrow> 'a anim \<Rightarrow> int" where
  "getNumTicks duration a = \<lceil>duration / msPerFrame a\<rceil>"

definition delayTicks :: "'a callback \<Rightarrow> int \<Rightarrow> 'a anim \<Rightarrow> int \<times> 'a anim" where
  "delayTicks callback ticksToWait a =
     (nextEventId a,
      a\<lparr> nextEventId := nextEventId a + 1,
         queue := queue a @ [\<lparr> ticks = curTick a + ticksToWait, call = callback,
                               eventId = nextEventId a \<rparr>],
         queueDirty := True \<rparr>)"

definition delay :: "'a callback \<Rightarrow> rat \<Rightarrow> 'a anim \<Rightarrow> int \<times> 'a anim" where
  "delay callback duration a = delayTicks callback (getNumTicks duration a) a"

text \<open>\<^verbatim>\<open>cancel\<close> splices out the first queue entry with the given id, if any.\<close>

fun cancel_frames :: "int \<Rightarrow> 'a frame list \<Rightarrow> 'a frame list" where
  "cancel_frames e [] = []"
| "cancel_frames e (f # fs) = (if eventId f = e then fs else f # cancel_frames e fs)"

definition cancel :: "int \<Rightarrow> 'a anim \<Rightarrow> 'a anim" where
  "cancel e a = a\<lparr> queue := cancel_frames e (queue a) \<rparr>"

text \<open>
  \<^verbatim>\<open>animate\<close> (for one CSS property) and \<^verbatim>\<open>animateThroughBackgrounds\<close> schedule one
  painting closure per tick \<open>0..numTicks\<close> and then the optional done callback at
  \<open>numTicks\<close>; what the closures paint is outside the model.
\<close>

fun delayPaints :: "int list \<Rightarrow> 'a anim \<Rightarrow> 'a anim" where
  "delayPaints [] a = a"
| "delayPaints (t # ts) a = delayPaints ts (snd (delayTicks Paint t a))"

definition animate :: "rat \<Rightarrow> 'a callback option \<Rightarrow> 'a anim \<Rightarrow> 'a anim" where
  "animate duration opt_doneCallback a =
     (let numTicks = getNumTicks duration a;
          a1 = delayPaints [0..numTicks] a
      in case opt_doneCallback of
           None \<Rightarrow> a1
         | Some d \<Rightarrow> snd (delayTicks d numTicks a1))"

text \<open>
  The comparator of the queue sort: by due tick, then by event id. The sort is an
  insertion sort; with distinct event ids the comparator is a strict total order and the
  sorted queue does not depend on the sorting algorithm.
\<close>

definition frame_le :: "'a frame \<Rightarrow> 'a frame \<Rightarrow> bool" where
  "frame_le x y = (if ticks x = ticks y then eventId x \<le> eventId y else ticks x < ticks y)"

fun insert_frame :: "'a frame \<Rightarrow> 'a frame list \<Rightarrow> 'a frame list" where
  "insert_frame x [] = [x]"
| "insert_frame x (y # ys) = (if frame_le x y then x # y # ys else y # insert_frame x ys)"

definition sort_frames :: "'a frame list \<Rightarrow> 'a frame list" where
  "sort_frames fs = foldr insert_frame fs []"

definition sortIfDirty :: "'a anim \<Rightarrow> 'a anim" where
  "sortIfDirty a =
     (if queueDirty a then a\<lparr> queue := sort_frames (queue a), queueDirty := False \<rparr> else a)"

text \<open>
  \<^verbatim>\<open>throttleFrameRate_\<close>; \<open>now\<close> is the value of \<^verbatim>\<open>new Date().getTime()\<close>. The tick
  period is an exact rational here (a double in the source); \<^verbatim>\<open>x >> 1\<close> on the
  non-negative counter is \<open>x div 2\<close>.
\<close>

definition throttleFrameRate :: "int \<Rightarrow> 'a anim \<Rightarrow> 'a anim" where
  "throttleFrameRate tickStartTime a =
     (let a1 =
        (if curTick a > 30 \<and> lastTickStartTime a \<noteq> 0 then
           (let tickLength = tickStartTime - lastTickStartTime a;
                a2 = (if of_int tickLength \<ge> (105 / 100) * msPerFrame a
                      then a\<lparr> tooSlowTicks := tooSlowTicks a + 1 \<rparr>
                      else a\<lparr> tooSlowTicks := tooSlowTicks a div 2 \<rparr>)
            in if tooSlowTicks a2 > 20
               then a2\<lparr> msPerFrame := min MIN_FPS_MS (msPerFrame a2 * (12 / 10)),
                        tooSlowTicks := 0 \<rparr>
               else a2)
         else a)
      in a1\<lparr> lastTickStartTime := tickStartTime \<rparr>)"

definition resetFpsController :: "'a anim \<Rightarrow> 'a anim" where
  "resetFpsController a = a\<lparr> tooSlowTicks := 0, lastTickStartTime := 0 \<rparr>"

definition anim_start :: "'a anim \<Rightarrow> 'a anim" where
  "anim_start a = a\<lparr> stopped := False \<rparr>"

definition anim_stop :: "'a anim \<Rightarrow> 'a anim" where
  "anim_stop a = resetFpsController (a\<lparr> stopped := True \<rparr>)"

definition anim_reset :: "'a anim \<Rightarrow> 'a anim" where
  "anim_reset a =
     resetFpsController
       ((anim_stop a)\<lparr> queue := [], curTick := 0, queueDirty := False, nextEventId := 1,
                       msPerFrame := MAX_FPS_MS \<rparr>)"

definition isStopped :: "'a anim \<Rightarrow> bool" where
  "isStopped a = stopped a"

section \<open>The program model (turing.Program)\<close>

text \<open>
  A program object: the operation arrays of its tracks (\<^verbatim>\<open>tracks_[i].ops\<close>), the number
  of active tracks and the current and next positions. Rendering (sprites, highlights)
  is outside the model. An operation slot read out of range is \<^verbatim>\<open>undefined\<close> in the
  source, \<open>None\<close> here; reading \<^verbatim>\<open>tracks_[curTrack_]\<close> where no such track exists
  throws a TypeError in the source, \<open>Inl TypeError\<close> here.
\<close>

datatype error = TypeError

record program =
  tracks :: "string list list"
  numActiveTracks :: int
  curTrack :: int
  curTrackPos :: int
  nextTrack :: int
  nextTrackPos :: int
  nextPosIsEnd :: bool

definition Track_getOp :: "string list \<Rightarrow> int \<Rightarrow> string option" where
  "Track_getOp ops i = (if 0 \<le> i \<and> nat i < length ops then Some (ops ! nat i) else None)"

definition curTrackOps :: "program \<Rightarrow> error + string list" where
  "curTrackOps p =
     (if 0 \<le> curTrack p \<and> nat (curTrack p) < length (tracks p)
      then Inr (tracks p ! nat (curTrack p)) else Inl TypeError)"

definition getCurTrack :: "program \<Rightarrow> int" where
  "getCurTrack p = curTrack p"

definition getCurTrackPos :: "program \<Rightarrow> int" where
  "getCurTrackPos p = curTrackPos p"

definition isNextPosEnd :: "program \<Rightarrow> bool" where
  "isNextPosEnd p = nextPosIsEnd p"

text \<open>\<open>n\<close> is the global \<^verbatim>\<open>turing.numOpsPerTrack_\<close> (8 in normal mode, 13 in bonus mode).\<close>

definition setNextPos :: "int \<Rightarrow> int \<Rightarrow> int \<Rightarrow> program \<Rightarrow> program" where
  "setNextPos n track pos p =
     (if track \<ge> 0 \<and> track < numActiveTracks p \<and> pos \<ge> 0 \<and> pos < n
      then p\<lparr> nextTrack := track, nextTrackPos := pos, nextPosIsEnd := False \<rparr>
      else p\<lparr> nextPosIsEnd := True \<rparr>)"

text \<open>
  \<^verbatim>\<open>dimCurOp\<close> and \<^verbatim>\<open>lightCurOp_\<close> only redraw; all that is kept of them is the
  dereference of \<^verbatim>\<open>tracks_[curTrack_]\<close>.
\<close>

definition dimCurOp :: "program \<Rightarrow> error + program" where
  "dimCurOp p = (case curTrackOps p of Inl e \<Rightarrow> Inl e | Inr _ \<Rightarrow> Inr p)"

definition lightCurOp :: "program \<Rightarrow> error + program" where
  "lightCurOp p = (case curTrackOps p of Inl e \<Rightarrow> Inl e | Inr _ \<Rightarrow> Inr p)"

definition goToNextPos :: "program \<Rightarrow> error + program" where
  "goToNextPos p =
     (case dimCurOp p of
        Inl e \<Rightarrow> Inl e
      | Inr p1 \<Rightarrow>
          if \<not> nextPosIsEnd p1
          then lightCurOp (p1\<lparr> curTrack := nextTrack p1, curTrackPos := nextTrackPos p1 \<rparr>)
          else Inr p1)"

definition getCurOp :: "program \<Rightarrow> error + string option" where
  "getCurOp p =
     (case curTrackOps p of Inl e \<Rightarrow> Inl e | Inr ops \<Rightarrow> Inr (Track_getOp ops (curTrackPos p)))"

section \<open>The tape model (turing.Tape)\<close>

text \<open>
  The logical state of a tape: the sparse contents (an absent key is \<^verbatim>\<open>undefined\<close>),
  the head position and the bookkeeping fields the scheduled closures read.
\<close>

record tape =
  contents :: "int \<Rightarrow> string option"
  pos :: int
  maxWrittenPosition :: int
  lastStartPos :: int
  seekPos :: "int option"
  scanning :: bool

definition tape_init :: tape where
  "tape_init = \<lparr> contents = (\<lambda>_. None), pos = 0, maxWrittenPosition = 0, lastStartPos = 0,
     seekPos = None, scanning = False \<rparr>"

definition NUM_VISIBLE_LEFT_SQUARES :: int where
  "NUM_VISIBLE_LEFT_SQUARES = (9 - 1) div 2"

definition NUM_VISIBLE_RIGHT_SQUARES :: int where
  "NUM_VISIBLE_RIGHT_SQUARES = (9 - 1) div 2 + 5"

definition SEEK_MS :: rat where
  "SEEK_MS = 50"

text \<open>\<^verbatim>\<open>this.contents_[this.pos_] || '_'\<close>: undefined and the empty string read as blank.\<close>

definition getCurSymbol :: "tape \<Rightarrow> string" where
  "getCurSymbol t =
     (case contents t (pos t) of None \<Rightarrow> ''_'' | Some s \<Rightarrow> if s = [] then ''_'' else s)"

definition clearOutsideRange :: "int \<Rightarrow> int \<Rightarrow> tape \<Rightarrow> tape" where
  "clearOutsideRange start fin t =
     t\<lparr> contents := (\<lambda>i. if contents t i \<noteq> None \<and> (i < start \<or> i > fin)
                          then Some [] else contents t i) \<rparr>"

section \<open>The simulator and the world\<close>

datatype SpeedSetting = SLOW | TUTORIAL | NORMAL | FAST | LUDICROUS

record speeds =
  stepTime :: rat
  tapeTime :: rat
  emptyStepTime :: rat
  branchTime :: rat

fun SPEED_CONFIG :: "SpeedSetting \<Rightarrow> speeds" where
  "SPEED_CONFIG SLOW =
     \<lparr> stepTime = 750, tapeTime = 600, emptyStepTime = 400, branchTime = 850 \<rparr>"
| "SPEED_CONFIG TUTORIAL =
     \<lparr> stepTime = 650, tapeTime = 500, emptyStepTime = 200, branchTime = 750 \<rparr>"
| "SPEED_CONFIG NORMAL =
     \<lparr> stepTime = 450, tapeTime = 300, emptyStepTime = 200, branchTime = 550 \<rparr>"
| "SPEED_CONFIG FAST =
     \<lparr> stepTime = 250, tapeTime = 200, emptyStepTime = 100, branchTime = 250 \<rparr>"
| "SPEED_CONFIG LUDICROUS =
     \<lparr> stepTime = 100, tapeTime = 50, emptyStepTime = 100, branchTime = 100 \<rparr>"

definition SOMEWHAT_BORING_REPEAT_COUNT :: int where
  "SOMEWHAT_BORING_REPEAT_COUNT = 4"

definition VERY_BORING_REPEAT_COUNT :: int where
  "VERY_BORING_REPEAT_COUNT = 6"

text \<open>
  The simulator object. \<^verbatim>\<open>program_\<close> and \<^verbatim>\<open>tape_\<close> are references (addresses into the
  stores of the world, \<open>None\<close> for \<^verbatim>\<open>null\<close>). \<^verbatim>\<open>runCount_\<close> is keyed in the source by
  the string \<^verbatim>\<open>track + ',' + pos\<close>, which determines the pair; a missing key counts 0.
\<close>

record 'a simulator =
  sim_program :: "nat option"
  sim_tape :: "nat option"
  stepTimerId :: int
  doneCallback :: "'a option"
  stepCount :: int
  stepLimit :: int
  runCount :: "int \<times> int \<Rightarrow> int"
  sim_speeds :: speeds
  paused :: bool

definition simulator_init :: "'a simulator" where
  "simulator_init = \<lparr> sim_program = None, sim_tape = None, stepTimerId = - 1,
     doneCallback = None, stepCount = 0, stepLimit = 0, runCount = (\<lambda>_. 0),
     sim_speeds = SPEED_CONFIG NORMAL, paused = False \<rparr>"

text \<open>
  The world: the scheduler module, the one simulator, the stores of program and tape
  objects, the global \<^verbatim>\<open>turing.numOpsPerTrack_\<close>, and the state \<open>ext\<close> of the caller
  that its own callbacks may change.
\<close>

record ('a, 'e) world =
  anim :: "'a anim"
  simulator :: "'a simulator"
  programs :: "nat \<Rightarrow> program"
  tapes :: "nat \<Rightarrow> tape"
  numOpsPerTrack :: int
  ext :: 'e

definition sched :: "'a callback \<Rightarrow> rat \<Rightarrow> ('a, 'e) world \<Rightarrow> int \<times> ('a, 'e) world" where
  "sched callback duration w =
     (fst (delay callback duration (anim w)), w\<lparr> anim := snd (delay callback duration (anim w)) \<rparr>)"

subsection \<open>Tape operations that schedule animations\<close>

definition scanLeft :: "nat \<Rightarrow> rat \<Rightarrow> rat \<Rightarrow> ('a, 'e) world \<Rightarrow> ('a, 'e) world" where
  "scanLeft t waitTime scanTime w =
     snd (sched (TapeScan t scanTime) waitTime
       (w\<lparr> tapes := (tapes w)(t := (tapes w t)\<lparr> scanning := True, pos := pos (tapes w t) - 1 \<rparr>) \<rparr>))"

definition scanRight :: "nat \<Rightarrow> rat \<Rightarrow> rat \<Rightarrow> ('a, 'e) world \<Rightarrow> ('a, 'e) world" where
  "scanRight t waitTime scanTime w =
     snd (sched (TapeScan t scanTime) waitTime
       (w\<lparr> tapes := (tapes w)(t := (tapes w t)\<lparr> scanning := True, pos := pos (tapes w t) + 1 \<rparr>) \<rparr>))"

definition seek :: "nat \<Rightarrow> ('a, 'e) world \<Rightarrow> ('a, 'e) world" where
  "seek t w =
     (case seekPos (tapes w t) of
        None \<Rightarrow> w
      | Some sp \<Rightarrow>
          if pos (tapes w t) < sp then scanRight t 0 SEEK_MS w
          else if pos (tapes w t) > sp then scanLeft t 0 SEEK_MS w
          else w\<lparr> tapes := (tapes w)(t :=
                 clearOutsideRange (pos (tapes w t) - NUM_VISIBLE_LEFT_SQUARES)
                   (pos (tapes w t) + NUM_VISIBLE_RIGHT_SQUARES)
                   ((tapes w t)\<lparr> seekPos := None \<rparr>)) \<rparr>)"

definition redrawTape :: "nat \<Rightarrow> ('a, 'e) world \<Rightarrow> ('a, 'e) world" where
  "redrawTape t w = seek t (w\<lparr> tapes := (tapes w)(t := (tapes w t)\<lparr> scanning := False \<rparr>) \<rparr>)"

definition showErase :: "string option \<Rightarrow> rat \<Rightarrow> 'a callback \<Rightarrow> ('a, 'e) world \<Rightarrow> ('a, 'e) world" where
  "showErase symbol time onDone w =
     (if symbol = Some ''0'' \<or> symbol = Some ''1''
      then w\<lparr> anim := animate time (Some onDone) (anim w) \<rparr>
      else snd (sched onDone time w))"

definition showPrint :: "string \<Rightarrow> rat \<Rightarrow> ('a, 'e) world \<Rightarrow> ('a, 'e) world" where
  "showPrint symbol time w =
     (if symbol = ''0'' \<or> symbol = ''1''
      then w\<lparr> anim := animate time (Some Paint) (anim w) \<rparr>
      else w)"

definition print :: "nat \<Rightarrow> string \<Rightarrow> rat \<Rightarrow> rat \<Rightarrow> ('a, 'e) world \<Rightarrow> ('a, 'e) world" where
  "print t symbol eraseTime printTime w =
     (let oldSymbol = contents (tapes w t) (pos (tapes w t));
          tp = (tapes w t)\<lparr> contents := (contents (tapes w t))(pos (tapes w t) := Some symbol),
                 maxWrittenPosition := max (pos (tapes w t)) (maxWrittenPosition (tapes w t)) \<rparr>
      in showErase oldSymbol eraseTime (TapeShowPrint t symbol printTime)
           (w\<lparr> tapes := (tapes w)(t := tp) \<rparr>))"

subsection \<open>Simulator operations\<close>

definition isRunning :: "'a simulator \<Rightarrow> bool" where
  "isRunning s = (stepTimerId s \<noteq> - 1)"

definition setStepLimit :: "int \<Rightarrow> 'a simulator \<Rightarrow> 'a simulator" where
  "setStepLimit limit s = s\<lparr> stepLimit := limit \<rparr>"

definition hasStepLimit :: "'a simulator \<Rightarrow> bool" where
  "hasStepLimit s = (stepLimit s \<noteq> 0)"

definition Simulator_run ::
  "nat \<Rightarrow> nat \<Rightarrow> SpeedSetting \<Rightarrow> 'a option \<Rightarrow> ('a, 'e) world \<Rightarrow> ('a, 'e) world" where
  "Simulator_run p t speed opt_doneCallback w =
     (if isRunning (simulator w) then w
      else
        (let w1 = w\<lparr> programs := (programs w)(p := setNextPos (numOpsPerTrack w) 0 0 (programs w p)),
                     simulator := (simulator w)\<lparr> sim_speeds := SPEED_CONFIG speed, stepCount := 0,
                                    runCount := (\<lambda>_. 0) \<rparr> \<rparr>;
             r = sched SimStep 0 w1
         in (snd r)\<lparr> simulator := (simulator (snd r))\<lparr> stepTimerId := fst r,
               sim_program := Some p, sim_tape := Some t, doneCallback := opt_doneCallback \<rparr> \<rparr>))"

text \<open>
  \<^verbatim>\<open>stop\<close> calls the done callback, when one is set, before it clears the field; \<open>user\<close>
  interprets the callbacks of the caller.
\<close>

definition Simulator_stop ::
  "('a \<Rightarrow> ('a, 'e) world \<Rightarrow> ('a, 'e) world) \<Rightarrow> ('a, 'e) world \<Rightarrow> ('a, 'e) world" where
  "Simulator_stop user w =
     (let w1 = (if stepTimerId (simulator w) \<noteq> - 1
                then w\<lparr> anim := cancel (stepTimerId (simulator w)) (anim w) \<rparr> else w);
          w2 = w1\<lparr> simulator := (simulator w1)\<lparr> stepTimerId := - 1, sim_program := None,
                                   sim_tape := None \<rparr> \<rparr>
      in case doneCallback (simulator w2) of
           None \<Rightarrow> w2
         | Some d \<Rightarrow> (let w3 = user d w2
                       in w3\<lparr> simulator := (simulator w3)\<lparr> doneCallback := None \<rparr> \<rparr>))"

definition Simulator_pause :: "('a, 'e) world \<Rightarrow> ('a, 'e) world" where
  "Simulator_pause w =
     (let w1 = (if stepTimerId (simulator w) \<noteq> - 1
                then w\<lparr> anim := cancel (stepTimerId (simulator w)) (anim w) \<rparr> else w)
      in w1\<lparr> simulator := (simulator w1)\<lparr> stepTimerId := - 1, paused := True \<rparr> \<rparr>)"

definition resumeIfPaused :: "('a, 'e) world \<Rightarrow> ('a, 'e) world" where
  "resumeIfPaused w =
     (let w1 = (if paused (simulator w)
                then (let r = sched SimStep 0 w
                      in (snd r)\<lparr> simulator := (simulator (snd r))\<lparr> stepTimerId := fst r \<rparr> \<rparr>)
                else w)
      in w1\<lparr> simulator := (simulator w1)\<lparr> paused := False \<rparr> \<rparr>)"

definition speedUpBoringLoops :: "nat \<Rightarrow> ('a, 'e) world \<Rightarrow> ('a, 'e) world" where
  "speedUpBoringLoops p w =
     (let pc = (getCurTrack (programs w p), getCurTrackPos (programs w p));
          count = runCount (simulator w) pc;
          s1 = (simulator w)\<lparr> runCount := (runCount (simulator w))(pc := count + 1) \<rparr>
      in w\<lparr> simulator :=
           (if count > VERY_BORING_REPEAT_COUNT then s1\<lparr> sim_speeds := SPEED_CONFIG LUDICROUS \<rparr>
            else if count > SOMEWHAT_BORING_REPEAT_COUNT then s1\<lparr> sim_speeds := SPEED_CONFIG FAST \<rparr>
            else s1) \<rparr>)"

subsection \<open>Decoding an operation\<close>

text \<open>
  \<^verbatim>\<open>if (op && op.charAt(0) == '*') op = op.substr(1)\<close>. The regular expression tests
  coerce \<^verbatim>\<open>undefined\<close> to the string \<^verbatim>\<open>"undefined"\<close>, which \<open>opText\<close> does.
\<close>

definition stripEditable :: "string option \<Rightarrow> string option" where
  "stripEditable op =
     (case op of
        Some (c # cs) \<Rightarrow> if c = CHR ''*'' then Some cs else Some (c # cs)
      | _ \<Rightarrow> op)"

definition opText :: "string option \<Rightarrow> string" where
  "opText op = (case op of None \<Rightarrow> ''undefined'' | Some s \<Rightarrow> s)"

definition opIsEmpty :: "string option \<Rightarrow> bool" where
  "opIsEmpty op = (op = None \<or> op = Some [])"

text \<open>\<^verbatim>\<open>/B[2-9]/.test(op)\<close>: a \<open>B\<close> followed by a digit from 2 to 9, anywhere in the text.\<close>

fun hasLoopBranch :: "string \<Rightarrow> bool" where
  "hasLoopBranch (c # d # cs) =
     ((c = CHR ''B'' \<and> d \<in> set ''23456789'') \<or> hasLoopBranch (d # cs))"
| "hasLoopBranch _ = False"

definition startsWith :: "char \<Rightarrow> string \<Rightarrow> bool" where
  "startsWith c s = (case s of [] \<Rightarrow> False | x # _ \<Rightarrow> x = c)"

definition charAt1 :: "string \<Rightarrow> string" where
  "charAt1 s = (if length s > 1 then [s ! 1] else [])"

text \<open>\<^verbatim>\<open>parseInt(ch, 10)\<close> of a string of at most one character; \<open>None\<close> is NaN.\<close>

definition parseDigit :: "string \<Rightarrow> int option" where
  "parseDigit s =
     (case s of
        [c] \<Rightarrow> map_of [(CHR ''0'', 0), (CHR ''1'', 1), (CHR ''2'', 2), (CHR ''3'', 3),
                 (CHR ''4'', 4), (CHR ''5'', 5), (CHR ''6'', 6), (CHR ''7'', 7),
                 (CHR ''8'', 8), (CHR ''9'', 9)] c
      | _ \<Rightarrow> None)"

definition updProgram :: "nat \<Rightarrow> (program \<Rightarrow> program) \<Rightarrow> ('a, 'e) world \<Rightarrow> ('a, 'e) world" where
  "updProgram p f w = w\<lparr> programs := (programs w)(p := f (programs w p)) \<rparr>"

text \<open>
  The dispatch of \<^verbatim>\<open>step\<close> on the operation text: the new world and whether the
  implicit step is still due. A loop branch whose offset does not parse passes NaN to
  \<^verbatim>\<open>setNextPos\<close>, where every comparison fails and only the end flag is set.
\<close>

definition dispatchOp ::
  "nat \<Rightarrow> nat \<Rightarrow> string \<Rightarrow> ('a, 'e) world \<Rightarrow> ('a, 'e) world \<times> bool" where
  "dispatchOp p t op w =
     (let tapeWaitTime = tapeTime (sim_speeds (simulator w)) / 2;
          tapeExecuteTime = tapeTime (sim_speeds (simulator w)) / 2;
          P = programs w p
      in if op = ''0'' \<or> op = ''1'' \<or> op = ''_'' then
           (print t op tapeWaitTime tapeExecuteTime w, True)
         else if op = ''L'' then (scanLeft t tapeWaitTime tapeExecuteTime w, True)
         else if op = ''R'' then (scanRight t tapeWaitTime tapeExecuteTime w, True)
         else if hasLoopBranch op then
           (case parseDigit (charAt1 op) of
              Some d \<Rightarrow> (updProgram p (setNextPos (numOpsPerTrack w) (getCurTrack P)
                           (getCurTrackPos P - d)) w, False)
            | None \<Rightarrow> (updProgram p (\<lambda>P. P\<lparr> nextPosIsEnd := True \<rparr>) w, False))
         else if startsWith (CHR ''D'') op then
           (if length op = 1 \<or> getCurSymbol (tapes w t) = charAt1 op
            then (updProgram p (setNextPos (numOpsPerTrack w) (getCurTrack P + 1)
                    (getCurTrackPos P)) w, False)
            else (w, True))
         else if startsWith (CHR ''U'') op then
           (if length op = 1 \<or> getCurSymbol (tapes w t) = charAt1 op
            then (updProgram p (setNextPos (numOpsPerTrack w) (getCurTrack P - 1)
                    (getCurTrackPos P)) w, False)
            else (w, True))
         else (w, True))"

definition stepTimeFor :: "string option \<Rightarrow> speeds \<Rightarrow> rat" where
  "stepTimeFor op sp =
     (if opIsEmpty op then emptyStepTime sp
      else if startsWith (CHR ''U'') (opText op) \<or> startsWith (CHR ''D'') (opText op)
              \<or> startsWith (CHR ''B'') (opText op)
      then branchTime sp
      else stepTime sp)"

text \<open>\<^verbatim>\<open>turing.Simulator.prototype.step\<close>.\<close>

definition Simulator_step ::
  "('a \<Rightarrow> ('a, 'e) world \<Rightarrow> ('a, 'e) world) \<Rightarrow> ('a, 'e) world \<Rightarrow> error + ('a, 'e) world" where
  "Simulator_step user w =
     (case (sim_tape (simulator w), sim_program (simulator w)) of
        (Some t, Some p) \<Rightarrow>
          if stepTimerId (simulator w) = - 1 then Inr w
          else
            (let w1 = w\<lparr> simulator := (simulator w)\<lparr> stepTimerId := - 1 \<rparr> \<rparr>
             in case goToNextPos (programs w1 p) of
                  Inl e \<Rightarrow> Inl e
                | Inr P1 \<Rightarrow>
                    (let w2 = w1\<lparr> programs := (programs w1)(p := P1) \<rparr>
                     in if isNextPosEnd P1 \<or>
                           (stepLimit (simulator w2) > 0 \<and>
                            stepCount (simulator w2) > stepLimit (simulator w2))
                        then (case dimCurOp P1 of
                                Inl e \<Rightarrow> Inl e
                              | Inr _ \<Rightarrow> Inr (Simulator_stop user w2))
                        else
                          (let w3 = (if stepLimit (simulator w2) > 0
                                     then speedUpBoringLoops p w2 else w2);
                               w4 = w3\<lparr> simulator := (simulator w3)\<lparr> stepCount :=
                                          stepCount (simulator w3) + 1 \<rparr> \<rparr>
                           in case getCurOp (programs w4 p) of
                                Inl e \<Rightarrow> Inl e
                              | Inr rawOp \<Rightarrow>
                                  (let op = stripEditable rawOp;
                                       d = dispatchOp p t (opText op) w4;
                                       w5 = (if snd d
                                             then updProgram p (setNextPos (numOpsPerTrack (fst d))
                                                    (getCurTrack (programs (fst d) p))
                                                    (getCurTrackPos (programs (fst d) p) + 1)) (fst d)
                                             else fst d);
                                       r = sched SimStep (stepTimeFor op (sim_speeds (simulator w5))) w5
                                   in Inr ((snd r)\<lparr> simulator :=
                                             (simulator (snd r))\<lparr> stepTimerId := fst r \<rparr> \<rparr>)))))
      | _ \<Rightarrow> Inr w)"

section \<open>The tick of the animation loop\<close>

text \<open>What invoking a queued closure does.\<close>

definition exec ::
  "('a \<Rightarrow> ('a, 'e) world \<Rightarrow> ('a, 'e) world) \<Rightarrow> 'a callback \<Rightarrow> ('a, 'e) world
     \<Rightarrow> error + ('a, 'e) world" where
  "exec user c w =
     (case c of
        SimStep \<Rightarrow> Simulator_step user w
      | TapeScan t scanTime \<Rightarrow> Inr (w\<lparr> anim := animate scanTime (Some (TapeRedraw t)) (anim w) \<rparr>)
      | TapeShowPrint t symbol time \<Rightarrow> Inr (showPrint symbol time w)
      | TapeRedraw t \<Rightarrow> Inr (redrawTape t w)
      | Paint \<Rightarrow> Inr w
      | User a \<Rightarrow> Inr (user a w))"

text \<open>
  The loop over the due frames reads the live queue at index \<open>i\<close> on every iteration,
  so it sees what the callbacks pushed or cancelled. It need not terminate (a callback
  may keep pushing due frames): not returning is \<open>None\<close>. An exception of a callback
  leaves the loop. The index at exit is \<^verbatim>\<open>numFrames\<close>.
\<close>

partial_function (option) drain ::
  "('a \<Rightarrow> ('a, 'e) world \<Rightarrow> ('a, 'e) world) \<Rightarrow> nat \<Rightarrow> ('a, 'e) world
     \<Rightarrow> (error + ('a, 'e) world \<times> nat) option" where
  [code]: "drain user i w =
     (if i < length (queue (anim w)) \<and> ticks (queue (anim w) ! i) \<le> curTick (anim w)
      then (case exec user (call (queue (anim w) ! i)) w of
              Inl e \<Rightarrow> Some (Inl e)
            | Inr w' \<Rightarrow> drain user (Suc i) w')
      else Some (Inr (w, i)))"

text \<open>
  One run of the frame callback of \<^verbatim>\<open>loop_\<close>, at wall-clock time \<open>now\<close>: the throttle
  and the sort of a dirty queue (\<open>frame_start\<close>), the drain, and then the splice of the
  first \<^verbatim>\<open>numFrames\<close> entries and the advance of the clock (\<open>frame_end\<close>). Asking the
  host for the next frame is outside the model.
\<close>

definition frame_start :: "int \<Rightarrow> ('a, 'e) world \<Rightarrow> ('a, 'e) world" where
  "frame_start now w = w\<lparr> anim := sortIfDirty (throttleFrameRate now (anim w)) \<rparr>"

definition frame_end ::
  "(error + ('a, 'e) world \<times> nat) option \<Rightarrow> (error + ('a, 'e) world) option" where
  "frame_end r =
     (case r of
        None \<Rightarrow> None
      | Some (Inl e) \<Rightarrow> Some (Inl e)
      | Some (Inr (w', numFrames)) \<Rightarrow>
          Some (Inr (w'\<lparr> anim := (anim w')\<lparr> queue := drop numFrames (queue (anim w')),
                                   curTick := curTick (anim w') + 1 \<rparr> \<rparr>)))"

definition tick ::
  "('a \<Rightarrow> ('a, 'e) world \<Rightarrow> ('a, 'e) world) \<Rightarrow> int \<Rightarrow> ('a, 'e) world
     \<Rightarrow> (error + ('a, 'e) world) option" where
  "tick user now w =
     (if stopped (anim w) then Some (Inr w)
      else frame_end (drain user 0 (frame_start now w)))"


section \<open>Callers, hosts and fixtures\<close>

text \<open>
  Callbacks of a caller that record their invocation in \<open>ext\<close>: \<open>Mark n\<close> only records
  \<open>n\<close>; \<open>MarkThenDelay n m ms\<close> records \<open>n\<close> and schedules \<open>Mark m\<close> after \<open>ms\<close>
  milliseconds (as \<^verbatim>\<open>turing.finishProgramRun_\<close> schedules its follow-up);
  \<open>MarkThenCancel n e\<close> records \<open>n\<close> and cancels event \<open>e\<close>; \<open>MarkThenRun n\<close> records
  \<open>n\<close> and calls \<^verbatim>\<open>run\<close> on program 0 and tape 0 at normal speed with no done callback.
\<close>

datatype hook = Mark nat | MarkThenDelay nat nat rat | MarkThenCancel nat int | MarkThenRun nat

fun hooks :: "hook \<Rightarrow> (hook, nat list) world \<Rightarrow> (hook, nat list) world" where
  "hooks (Mark n) w = w\<lparr> ext := ext w @ [n] \<rparr>"
| "hooks (MarkThenDelay n m ms) w = snd (sched (User (Mark m)) ms (w\<lparr> ext := ext w @ [n] \<rparr>))"
| "hooks (MarkThenCancel n e) w = w\<lparr> ext := ext w @ [n], anim := cancel e (anim w) \<rparr>"
| "hooks (MarkThenRun n) w = Simulator_run 0 0 NORMAL None (w\<lparr> ext := ext w @ [n] \<rparr>)"

text \<open>
  A host that delivers \<open>n\<close> animation frames, the first at time \<open>now\<close> and one every
  \<open>dt\<close> milliseconds after it.
\<close>

fun run_ticks ::
  "nat \<Rightarrow> ('a \<Rightarrow> ('a, 'e) world \<Rightarrow> ('a, 'e) world) \<Rightarrow> int \<Rightarrow> int \<Rightarrow> ('a, 'e) world
     \<Rightarrow> (error + ('a, 'e) world) option" where
  "run_ticks 0 user now dt w = Some (Inr w)"
| "run_ticks (Suc n) user now dt w =
     (case tick user now w of
        Some (Inr w') \<Rightarrow> run_ticks n user (now + dt) dt w'
      | r \<Rightarrow> r)"

text \<open>
  A program object of normal mode (two tracks) after \<^verbatim>\<open>change(trackOps)\<close> with one
  operation array per track, as \<^verbatim>\<open>turing.assemble_\<close> produces them.
\<close>

definition loaded :: "string list \<Rightarrow> string list \<Rightarrow> program" where
  "loaded ops0 ops1 = \<lparr> tracks = [ops0, ops1], numActiveTracks = 2, curTrack = 0,
     curTrackPos = 0, nextTrack = 0, nextTrackPos = 0, nextPosIsEnd = False \<rparr>"

text \<open>
  The world after \<^verbatim>\<open>turing.anim.reset(); turing.anim.start()\<close> in normal mode, with a
  fresh simulator, the given program at every program address and blank tapes.
\<close>

definition world_of :: "program \<Rightarrow> (hook, nat list) world" where
  "world_of P = \<lparr> anim = anim_start (anim_reset anim_init), simulator = simulator_init,
     programs = (\<lambda>_. P), tapes = (\<lambda>_. tape_init), numOpsPerTrack = 8, ext = [] \<rparr>"

text \<open>A loop that never reaches the end: no-op, move right, branch back two.\<close>

definition loop_program :: program where
  "loop_program = loaded ['''', ''R'', ''B2''] []"

definition limit40 :: "(hook, nat list) world \<Rightarrow> (hook, nat list) world" where
  "limit40 w = w\<lparr> simulator := setStepLimit 40 (simulator w) \<rparr>"

text \<open>
  An inner loop \<open>R D_ B2\<close> on track 0 that is left through \<open>D_\<close> on a blank square and
  re-entered through \<open>R U\<close> on track 1, on a tape with \<open>1\<close> at squares 1 and 2.
\<close>

definition nested_program :: program where
  "nested_program = loaded [''R'', ''D_'', ''B2''] ['''', ''R'', ''U'']"

definition nested_world :: "(hook, nat list) world" where
  "nested_world =
     limit40 ((world_of nested_program)\<lparr> tapes := (\<lambda>_. tape_init\<lparr> contents :=
        (\<lambda>i. if i = 1 \<or> i = 2 then Some ''1'' else None) \<rparr>) \<rparr>)"

definition stepEvents :: "('a, 'e) world \<Rightarrow> nat" where
  "stepEvents w = length (filter (\<lambda>f. call f = SimStep) (queue (anim w)))"

text \<open>
  A step reaches the dispatch when it passes its guard (tape and program set, a step
  timer pending), \<^verbatim>\<open>goToNextPos\<close> succeeds with the program \<open>P1\<close>, and neither halting
  condition holds.
\<close>

definition stepRuns :: "('a, 'e) world \<Rightarrow> nat \<Rightarrow> nat \<Rightarrow> program \<Rightarrow> bool" where
  "stepRuns w t p P1 =
     (sim_tape (simulator w) = Some t \<and> sim_program (simulator w) = Some p \<and>
      stepTimerId (simulator w) \<noteq> - 1 \<and>
      goToNextPos (programs w p) = Inr P1 \<and>
      \<not> isNextPosEnd P1 \<and>
      \<not> (stepLimit (simulator w) > 0 \<and> stepCount (simulator w) > stepLimit (simulator w)))"

text \<open>
  What a caller can observe of a run: the step count, whether the simulator is running,
  its speeds, the head position of tape 0 and the record of the callbacks.
\<close>

definition snapshot :: "('a, 'e) world \<Rightarrow> int \<times> bool \<times> speeds \<times> int \<times> 'e" where
  "snapshot w = (stepCount (simulator w), isRunning (simulator w), sim_speeds (simulator w),
     pos (tapes w 0), ext w)"

text \<open>
  The snapshots after those of \<open>n\<close> frames in which the step timer changed, that is, in
  which the simulator stepped or halted.
\<close>

fun history ::
  "nat \<Rightarrow> ('a \<Rightarrow> ('a, 'e) world \<Rightarrow> ('a, 'e) world) \<Rightarrow> int \<Rightarrow> int \<Rightarrow> ('a, 'e) world
     \<Rightarrow> (int \<times> bool \<times> speeds \<times> int \<times> 'e) list" where
  "history 0 user now dt w = []"
| "history (Suc n) user now dt w =
     (case tick user now w of
        Some (Inr w') \<Rightarrow>
          (if stepTimerId (simulator w') = stepTimerId (simulator w) then [] else [snapshot w'])
            @ history n user (now + dt) dt w'
      | _ \<Rightarrow> [])"

text \<open>One frame at time 17: the record of the callbacks and the ids still queued.\<close>

definition frame_result :: "(hook, nat list) world \<Rightarrow> (error + nat list \<times> int list) option" where
  "frame_result w =
     (case tick hooks 17 w of
        None \<Rightarrow> None
      | Some (Inl e) \<Rightarrow> Some (Inl e)
      | Some (Inr w') \<Rightarrow> Some (Inr (ext w', map eventId (queue (anim w')))))"

text \<open>\<^verbatim>\<open>run(); pause(); run(); resumeIfPaused()\<close> on the endless loop.\<close>

definition double_resume :: "(hook, nat list) world" where
  "double_resume =
     resumeIfPaused (Simulator_run 0 0 NORMAL None
       (Simulator_pause (Simulator_run 0 0 NORMAL None (world_of loop_program))))"

text \<open>The endless loop started with step limit 40 and a recording done callback.\<close>

definition limit40_run :: "(hook, nat list) world" where
  "limit40_run = Simulator_run 0 0 LUDICROUS (Some (Mark 7)) (limit40 (world_of loop_program))"

definition nested_run :: "(hook, nat list) world" where
  "nested_run = Simulator_run 0 0 FAST (Some (Mark 7)) nested_world"




text \<open>
  Three events due at the same tick; the callback of the second cancels the id of the
  first, which has fired by then.
\<close>

definition cancel_fired :: "(hook, nat list) world" where
  "cancel_fired =
     snd (sched (User (Mark 3)) 0
       (snd (sched (User (MarkThenCancel 2 1)) 0
         (snd (sched (User (Mark 1)) 0 (world_of loop_program))))))"

text \<open>The tick period and the overrun counter after \<open>n\<close> frames that arrive 100 ms apart.\<close>

definition throttle_state :: "nat \<Rightarrow> (rat \<times> int) option" where
  "throttle_state n =
     (case run_ticks n hooks 100 100 (world_of loop_program) of
        Some (Inr w) \<Rightarrow> Some (msPerFrame (anim w), tooSlowTicks (anim w))
      | _ \<Rightarrow> None)"

text \<open>
  The tick periods that the throttle reaches from \<^verbatim>\<open>reset\<close>: between the fastest and
  the slowest supported rate.
\<close>

definition throttle_inv :: "'a anim \<Rightarrow> bool" where
  "throttle_inv a = (MAX_FPS_MS \<le> msPerFrame a \<and> msPerFrame a \<le> MIN_FPS_MS)"

text \<open>The overrun counter exceeds its threshold in the frame at time \<open>now\<close>.\<close>

definition overrun :: "int \<Rightarrow> 'a anim \<Rightarrow> bool" where
  "overrun now a =
     (curTick a > 30 \<and> lastTickStartTime a \<noteq> 0 \<and>
      (if of_int (now - lastTickStartTime a) \<ge> (105 / 100) * msPerFrame a
       then tooSlowTicks a + 1 else tooSlowTicks a div 2) > 20)"

text \<open>Runs of the endless loop with done callbacks, for the properties of \<^verbatim>\<open>stop\<close>.\<close>

definition running_world :: "(hook, nat list) world" where
  "running_world =
     Simulator_run 0 0 NORMAL (Some (MarkThenDelay 1 2 700)) (world_of loop_program)"

definition stop_fixture :: "(hook, nat list) world" where
  "stop_fixture = Simulator_run 0 0 NORMAL (Some (Mark 5)) (world_of loop_program)"

definition replaced_run :: "(hook, nat list) world" where
  "replaced_run =
     Simulator_run 0 0 NORMAL (Some (Mark 2))
       (Simulator_pause (Simulator_run 0 0 NORMAL (Some (Mark 1)) (world_of loop_program)))"

text \<open>A run whose done callback starts the next run itself.\<close>

definition chained_run :: "(hook, nat list) world" where
  "chained_run = Simulator_run 0 0 NORMAL (Some (MarkThenRun 3)) (world_of loop_program)"

text \<open>A program whose first operation is the editable \<open>D_\<close>, started on a blank tape.\<close>

definition branch_world :: "(hook, nat list) world" where
  "branch_world = Simulator_run 0 0 NORMAL None (world_of (loaded [''*D_'', ''1''] [''0'']))"

text \<open>A throttle that is one slow frame away from exceeding the overrun threshold.\<close>

definition nearly_overrun :: "hook anim" where
  "nearly_overrun = (anim_reset anim_init)\<lparr> curTick := 31, lastTickStartTime := 1,
     tooSlowTicks := 20 \<rparr>"

section \<open>Frame lemmas\<close>

lemma sched_simulator: "simulator (snd (sched c d w)) = simulator w"
  by (simp add: sched_def)

lemma sched_programs: "programs (snd (sched c d w)) = programs w"
  by (simp add: sched_def)

lemma sched_tapes: "tapes (snd (sched c d w)) = tapes w"
  by (simp add: sched_def)

lemma sched_numOps: "numOpsPerTrack (snd (sched c d w)) = numOpsPerTrack w"
  by (simp add: sched_def)

lemma dispatchOp_simulator: "simulator (fst (dispatchOp p t op w)) = simulator w"
  by (simp add: dispatchOp_def Let_def print_def showErase_def scanLeft_def scanRight_def
      updProgram_def sched_simulator split: option.splits)

lemma speedUp_programs: "programs (speedUpBoringLoops p w) = programs w"
  by (simp add: speedUpBoringLoops_def Let_def)

lemma speedUp_tapes: "tapes (speedUpBoringLoops p w) = tapes w"
  by (simp add: speedUpBoringLoops_def Let_def)

lemma speedUp_numOps: "numOpsPerTrack (speedUpBoringLoops p w) = numOpsPerTrack w"
  by (simp add: speedUpBoringLoops_def Let_def)

lemmas step_frame = sched_simulator sched_programs sched_tapes sched_numOps
  dispatchOp_simulator speedUp_programs speedUp_tapes speedUp_numOps

lemma goToNextPos_track:
  "goToNextPos P = Inr P1 \<Longrightarrow> \<exists>ops. curTrackOps P1 = Inr ops"
  by (auto simp: goToNextPos_def dimCurOp_def lightCurOp_def curTrackOps_def
      split: sum.splits if_splits)

text \<open>The shape of a step that neither returns at its guard nor halts.\<close>

lemma step_runs:
  assumes "stepRuns w t p P1"
  shows "\<exists>rawOp. getCurOp P1 = Inr rawOp \<and>
     Simulator_step user w =
       (let w2 = w\<lparr> simulator := (simulator w)\<lparr> stepTimerId := - 1 \<rparr>,
                     programs := (programs w)(p := P1) \<rparr>;
            w3 = (if stepLimit (simulator w) > 0 then speedUpBoringLoops p w2 else w2);
            w4 = w3\<lparr> simulator := (simulator w3)\<lparr> stepCount := stepCount (simulator w3) + 1 \<rparr> \<rparr>;
            op = stripEditable rawOp;
            d = dispatchOp p t (opText op) w4;
            w5 = (if snd d
                  then updProgram p (setNextPos (numOpsPerTrack (fst d))
                         (getCurTrack (programs (fst d) p))
                         (getCurTrackPos (programs (fst d) p) + 1)) (fst d)
                  else fst d);
            r = sched SimStep (stepTimeFor op (sim_speeds (simulator w5))) w5
        in Inr ((snd r)\<lparr> simulator := (simulator (snd r))\<lparr> stepTimerId := fst r \<rparr> \<rparr>))"
proof -
  from assms have g: "goToNextPos (programs w p) = Inr P1" by (simp add: stepRuns_def)
  from goToNextPos_track [OF g] obtain ops where ops: "curTrackOps P1 = Inr ops" by blast
  then have c: "getCurOp P1 = Inr (Track_getOp ops (curTrackPos P1))"
    by (simp add: getCurOp_def)
  have c': "getCurOp (programs (speedUpBoringLoops p (w\<lparr> simulator := (simulator w)\<lparr> stepTimerId := - 1 \<rparr>,
                     programs := (programs w)(p := P1) \<rparr>)) p) = Inr (Track_getOp ops (curTrackPos P1))"
    using c by (simp add: step_frame)
  from assms g c c' show ?thesis
    by (simp add: stepRuns_def Simulator_step_def Let_def step_frame)
qed

lemma dispatchOp_down:
  "dispatchOp p t ''D'' w =
     (updProgram p (setNextPos (numOpsPerTrack w) (getCurTrack (programs w p) + 1)
        (getCurTrackPos (programs w p))) w, False)"
  "dispatchOp p t ''D0'' w =
     (if getCurSymbol (tapes w t) = ''0''
      then (updProgram p (setNextPos (numOpsPerTrack w) (getCurTrack (programs w p) + 1)
              (getCurTrackPos (programs w p))) w, False)
      else (w, True))"
  "dispatchOp p t ''D1'' w =
     (if getCurSymbol (tapes w t) = ''1''
      then (updProgram p (setNextPos (numOpsPerTrack w) (getCurTrack (programs w p) + 1)
              (getCurTrackPos (programs w p))) w, False)
      else (w, True))"
  "dispatchOp p t ''D_'' w =
     (if getCurSymbol (tapes w t) = ''_''
      then (updProgram p (setNextPos (numOpsPerTrack w) (getCurTrack (programs w p) + 1)
              (getCurTrackPos (programs w p))) w, False)
      else (w, True))"
  by (simp_all add: dispatchOp_def Let_def startsWith_def charAt1_def)

lemma stop_no_callback:
  "doneCallback (simulator w) = None \<Longrightarrow> stepTimerId (simulator w) = - 1 \<Longrightarrow>
   sim_program (simulator w) = None \<Longrightarrow> sim_tape (simulator w) = None \<Longrightarrow>
   Simulator_stop user w = w"
  by (simp add: Simulator_stop_def Let_def)

lemma stop_idle_after:
  assumes "\<And>d w'. doneCallback (simulator w) = Some d \<Longrightarrow> simulator (user d w') = simulator w'"
  shows "doneCallback (simulator (Simulator_stop user w)) = None \<and>
         stepTimerId (simulator (Simulator_stop user w)) = - 1 \<and>
         sim_program (simulator (Simulator_stop user w)) = None \<and>
         sim_tape (simulator (Simulator_stop user w)) = None"
proof (cases "doneCallback (simulator w)")
  case None
  then show ?thesis by (simp add: Simulator_stop_def Let_def)
next
  case (Some d)
  from assms [OF Some] have keep: "\<And>w'. simulator (user d w') = simulator w'" .
  from Some show ?thesis by (simp add: Simulator_stop_def Let_def keep)
qed

section \<open>The tick period\<close>

lemma throttle_cases:
  "throttleFrameRate now a =
     (if overrun now a
      then a\<lparr> msPerFrame := min MIN_FPS_MS (msPerFrame a * (12 / 10)), tooSlowTicks := 0,
              lastTickStartTime := now \<rparr>
      else if curTick a > 30 \<and> lastTickStartTime a \<noteq> 0
      then a\<lparr> tooSlowTicks := (if of_int (now - lastTickStartTime a) \<ge> (105 / 100) * msPerFrame a
                                  then tooSlowTicks a + 1 else tooSlowTicks a div 2),
              lastTickStartTime := now \<rparr>
      else a\<lparr> lastTickStartTime := now \<rparr>)"
  by (simp add: throttleFrameRate_def overrun_def Let_def)

lemma throttle_inv_step:
  assumes "throttle_inv a"
  shows "throttle_inv (throttleFrameRate now a)"
  using assms
  by (auto simp add: throttle_cases throttle_inv_def overrun_def MIN_FPS_MS_def MAX_FPS_MS_def)

lemma delayTicks_period: "msPerFrame (snd (delayTicks c n a)) = msPerFrame a"
  by (simp add: delayTicks_def)

lemma delay_period: "msPerFrame (snd (delay c d a)) = msPerFrame a"
  by (simp add: delay_def delayTicks_period)

lemma cancel_period: "msPerFrame (cancel e a) = msPerFrame a"
  by (simp add: cancel_def)

lemma delayPaints_period: "msPerFrame (delayPaints ts a) = msPerFrame a"
  by (induction ts arbitrary: a) (simp_all add: delayTicks_period)

lemma animate_period: "msPerFrame (animate d c a) = msPerFrame a"
  by (simp add: animate_def Let_def delayPaints_period delayTicks_period split: option.splits)

lemma sched_period: "msPerFrame (anim (snd (sched c d w))) = msPerFrame (anim w)"
  by (simp add: sched_def delay_period)

lemma scan_period:
  "msPerFrame (anim (scanLeft t x y w)) = msPerFrame (anim w)"
  "msPerFrame (anim (scanRight t x y w)) = msPerFrame (anim w)"
  by (simp_all add: scanLeft_def scanRight_def sched_period)

lemma redrawTape_period: "msPerFrame (anim (redrawTape t w)) = msPerFrame (anim w)"
  by (simp add: redrawTape_def seek_def scan_period split: option.splits)

lemma showPrint_period: "msPerFrame (anim (showPrint s d w)) = msPerFrame (anim w)"
  by (simp add: showPrint_def animate_period)

lemma print_period: "msPerFrame (anim (print t s x y w)) = msPerFrame (anim w)"
  by (simp add: print_def showErase_def Let_def sched_period animate_period)

lemma updProgram_anim: "anim (updProgram p f w) = anim w"
  by (simp add: updProgram_def)

lemma speedUp_anim: "anim (speedUpBoringLoops p w) = anim w"
  by (simp add: speedUpBoringLoops_def Let_def)

lemma dispatchOp_period:
  "msPerFrame (anim (fst (dispatchOp p t op w))) = msPerFrame (anim w)"
  by (simp add: dispatchOp_def Let_def scan_period print_period updProgram_anim
      split: option.splits)

lemmas period_frame = delayTicks_period delay_period cancel_period delayPaints_period
  animate_period sched_period scan_period redrawTape_period showPrint_period print_period
  updProgram_anim speedUp_anim dispatchOp_period

lemma stop_period:
  assumes "\<And>a w'. msPerFrame (anim (user a w')) = msPerFrame (anim w')"
  shows "msPerFrame (anim (Simulator_stop user w)) = msPerFrame (anim w)"
  by (simp add: Simulator_stop_def Let_def assms period_frame split: option.splits)

lemma step_period:
  assumes "\<And>a w'. msPerFrame (anim (user a w')) = msPerFrame (anim w')"
    and "Simulator_step user w = Inr w'"
  shows "msPerFrame (anim w') = msPerFrame (anim w)"
  using assms(2)
  by (auto simp add: Simulator_step_def Let_def stop_period [OF assms(1)] period_frame
      split: option.splits sum.splits if_splits)

lemma exec_period:
  assumes "\<And>a w'. msPerFrame (anim (user a w')) = msPerFrame (anim w')"
    and "exec user c w = Inr w'"
  shows "msPerFrame (anim w') = msPerFrame (anim w)"
  using assms(2) step_period [OF assms(1)]
  by (auto simp add: exec_def assms(1) period_frame split: callback.splits)

lemma drain_period:
  assumes "drain user i w = Some r"
  shows "(\<forall>a w'. msPerFrame (anim (user a w')) = msPerFrame (anim w')) \<longrightarrow>
         (case r of Inl _ \<Rightarrow> True | Inr (w', n) \<Rightarrow> msPerFrame (anim w') = msPerFrame (anim w))"
proof (rule drain.raw_induct [where P = "\<lambda>user i w r.
         (\<forall>a w'. msPerFrame (anim (user a w')) = msPerFrame (anim w')) \<longrightarrow>
         (case r of Inl _ \<Rightarrow> True | Inr (w', n) \<Rightarrow> msPerFrame (anim w') = msPerFrame (anim w))",
       OF _ assms])
  fix drain' :: "('a \<Rightarrow> ('a, 'b) world \<Rightarrow> ('a, 'b) world) \<Rightarrow> nat \<Rightarrow> ('a, 'b) world
     \<Rightarrow> (error + ('a, 'b) world \<times> nat) option"
  fix user i w r
  assume IH: "\<And>user i w r. drain' user i w = Some r \<Longrightarrow>
         (\<forall>a w'. msPerFrame (anim (user a w')) = msPerFrame (anim w')) \<longrightarrow>
         (case r of Inl _ \<Rightarrow> True | Inr (w', n) \<Rightarrow> msPerFrame (anim w') = msPerFrame (anim w))"
  assume body: "(if i < length (queue (anim w)) \<and> ticks (queue (anim w) ! i) \<le> curTick (anim w)
      then case exec user (call (queue (anim w) ! i)) w of
           Inl e \<Rightarrow> Some (Inl e) | Inr w' \<Rightarrow> drain' user (Suc i) w'
      else Some (Inr (w, i))) = Some r"
  show "(\<forall>a w'. msPerFrame (anim (user a w')) = msPerFrame (anim w')) \<longrightarrow>
         (case r of Inl _ \<Rightarrow> True | Inr (w', n) \<Rightarrow> msPerFrame (anim w') = msPerFrame (anim w))"
  proof
    assume u: "\<forall>a w'. msPerFrame (anim (user a w')) = msPerFrame (anim w')"
    show "case r of Inl _ \<Rightarrow> True | Inr (w', n) \<Rightarrow> msPerFrame (anim w') = msPerFrame (anim w)"
    proof (cases "i < length (queue (anim w)) \<and> ticks (queue (anim w) ! i) \<le> curTick (anim w)")
      case False
      with body show ?thesis by auto
    next
      case True
      show ?thesis
      proof (cases "exec user (call (queue (anim w) ! i)) w")
        case (Inl e)
        with True body show ?thesis by auto
      next
        case (Inr w1)
        with True body have d: "drain' user (Suc i) w1 = Some r" by simp
        from exec_period [OF _ Inr] u have p1: "msPerFrame (anim w1) = msPerFrame (anim w)" by blast
        from IH [OF d] u have "case r of Inl _ \<Rightarrow> True | Inr (w', n) \<Rightarrow> msPerFrame (anim w') = msPerFrame (anim w1)"
          by blast
        with p1 show ?thesis by (auto split: sum.splits)
      qed
    qed
  qed
qed

lemma tick_period:
  assumes "\<And>a w'. msPerFrame (anim (user a w')) = msPerFrame (anim w')"
    and "tick user now w = Some (Inr w')"
  shows "msPerFrame (anim w') =
           (if stopped (anim w) then msPerFrame (anim w)
            else msPerFrame (throttleFrameRate now (anim w)))"
proof (cases "stopped (anim w)")
  case True
  with assms(2) show ?thesis by (simp add: tick_def)
next
  case False
  with assms(2) obtain w1 n where
    d: "drain user 0 (w\<lparr> anim := sortIfDirty (throttleFrameRate now (anim w)) \<rparr>) = Some (Inr (w1, n))"
    and w': "w' = w1\<lparr> anim := (anim w1)\<lparr> queue := drop n (queue (anim w1)),
                                      curTick := curTick (anim w1) + 1 \<rparr> \<rparr>"
    by (auto simp add: tick_def frame_start_def frame_end_def split: option.splits sum.splits)
  from drain_period [OF d] assms(1)
  have "msPerFrame (anim w1) = msPerFrame (sortIfDirty (throttleFrameRate now (anim w)))"
    by simp
  with False w' show ?thesis by (simp add: sortIfDirty_def)
qed

lemma throttle_mono:
  "throttle_inv x \<Longrightarrow>
     throttle_inv (throttleFrameRate t x) \<and> msPerFrame x \<le> msPerFrame (throttleFrameRate t x)"
  using throttle_inv_step [of x t]
  by (auto simp add: throttle_cases throttle_inv_def MIN_FPS_MS_def MAX_FPS_MS_def)

lemma run_period:
  "msPerFrame (anim (Simulator_run p t speed d w)) = msPerFrame (anim w)"
  by (simp add: Simulator_run_def Let_def period_frame)

section \<open>The drain of one frame\<close>
















section \<open>Program positions\<close>

text \<open>
  C8. For all integers \<open>track\<close> and \<open>idx\<close>: when \<open>0 \<le> track < numActiveTracks\<close> and
  \<open>0 \<le> idx < n\<close> (\<open>n\<close> the number of operations per track), \<open>setNextPos\<close> stores
  \<open>(track, idx)\<close> as the next position and clears the end flag; for any other argument
  it sets the end flag and leaves the stored next track and next index as they were.
\<close>

theorem setNextPos_in_range_or_end:
  "(0 \<le> track \<and> track < numActiveTracks p \<and> 0 \<le> idx \<and> idx < n \<longrightarrow>
      nextTrack (setNextPos n track idx p) = track \<and>
      nextTrackPos (setNextPos n track idx p) = idx \<and>
      \<not> isNextPosEnd (setNextPos n track idx p)) \<and>
   (\<not> (0 \<le> track \<and> track < numActiveTracks p \<and> 0 \<le> idx \<and> idx < n) \<longrightarrow>
      isNextPosEnd (setNextPos n track idx p) \<and>
      nextTrack (setNextPos n track idx p) = nextTrack p \<and>
      nextTrackPos (setNextPos n track idx p) = nextTrackPos p)"
  by (simp add: setNextPos_def isNextPosEnd_def)

theorem setNextPos_in_range_or_end_witness:
  "(0 \<le> (1::int) \<and> 1 < numActiveTracks loop_program \<and> 0 \<le> (3::int) \<and> (3::int) < 8) \<and>
   nextTrack (setNextPos 8 1 3 loop_program) = 1 \<and>
   nextTrackPos (setNextPos 8 1 3 loop_program) = 3 \<and>
   \<not> isNextPosEnd (setNextPos 8 1 3 loop_program) \<and>
   \<not> (0 \<le> (2::int) \<and> 2 < numActiveTracks loop_program \<and> 0 \<le> (0::int) \<and> (0::int) < 8) \<and>
   isNextPosEnd (setNextPos 8 2 0 loop_program) \<and>
   nextTrack (setNextPos 8 2 0 loop_program) = nextTrack loop_program \<and>
   nextTrackPos (setNextPos 8 2 0 loop_program) = nextTrackPos loop_program"
  using setNextPos_in_range_or_end [of 1 loop_program 3 8]
        setNextPos_in_range_or_end [of 2 loop_program 0 8]
  by (simp add: loop_program_def loaded_def)

section \<open>Stopping the simulator\<close>

text \<open>
  C10. \<^verbatim>\<open>stop()\<close> itself changes no tape and no program object: when the registered done
  callback leaves the stores of tapes and programs as they are, every tape (contents and
  head position) and every program (operation arrays, current and next position, end
  flag) is the same before and after. What \<^verbatim>\<open>stop\<close> does is cancel the pending step event,
  clear the simulator's own program and tape references, and call and clear the done
  callback.
\<close>

theorem Simulator_stop_frame:
  assumes "\<And>d w'. doneCallback (simulator w) = Some d \<Longrightarrow>
             tapes (user d w') = tapes w' \<and> programs (user d w') = programs w'"
  shows "tapes (Simulator_stop user w) = tapes w \<and>
         programs (Simulator_stop user w) = programs w \<and>
         Simulator_stop user w =
           (let w2 = w\<lparr> anim := (if stepTimerId (simulator w) = - 1 then anim w
                                   else cancel (stepTimerId (simulator w)) (anim w)),
                         simulator := (simulator w)\<lparr> stepTimerId := - 1, sim_program := None,
                                        sim_tape := None \<rparr> \<rparr>
            in case doneCallback (simulator w) of
                 None \<Rightarrow> w2
               | Some d \<Rightarrow> (user d w2)\<lparr> simulator := (simulator (user d w2))\<lparr> doneCallback := None \<rparr> \<rparr>)"
proof (cases "doneCallback (simulator w)")
  case None
  then show ?thesis
    by (simp add: Simulator_stop_def Let_def)
next
  case (Some d)
  from assms [OF Some] have keep: "\<And>w'. tapes (user d w') = tapes w'" "\<And>w'. programs (user d w') = programs w'"
    by simp_all
  from Some show ?thesis
    by (simp add: Simulator_stop_def Let_def keep)
qed

theorem Simulator_stop_frame_witness:
  "doneCallback (simulator running_world) = Some (MarkThenDelay 1 2 700) \<and>
   (\<forall>w'. tapes (hooks (MarkThenDelay 1 2 700) w') = tapes w' \<and>
         programs (hooks (MarkThenDelay 1 2 700) w') = programs w') \<and>
   tapes (Simulator_stop hooks running_world) = tapes running_world \<and>
   programs (Simulator_stop hooks running_world) = programs running_world \<and>
   ext (Simulator_stop hooks running_world) = [1] \<and>
   stepEvents running_world = 1 \<and>
   stepEvents (Simulator_stop hooks running_world) = 0 \<and>
   sim_program (simulator (Simulator_stop hooks running_world)) = None \<and>
   sim_tape (simulator (Simulator_stop hooks running_world)) = None \<and>
   doneCallback (simulator (Simulator_stop hooks running_world)) = None"
proof -
  have reg: "doneCallback (simulator running_world) = Some (MarkThenDelay 1 2 700)"
    by (simp add: running_world_def Simulator_run_def isRunning_def world_of_def
        simulator_init_def sched_def Let_def)
  have keep: "\<And>d w'. doneCallback (simulator running_world) = Some d \<Longrightarrow>
      tapes (hooks d w') = tapes w' \<and> programs (hooks d w') = programs w'"
    by (auto simp add: reg sched_def)
  have rest: "ext (Simulator_stop hooks running_world) = [1] \<and>
   stepEvents running_world = 1 \<and>
   stepEvents (Simulator_stop hooks running_world) = 0 \<and>
   sim_program (simulator (Simulator_stop hooks running_world)) = None \<and>
   sim_tape (simulator (Simulator_stop hooks running_world)) = None \<and>
   doneCallback (simulator (Simulator_stop hooks running_world)) = None"
    by code_simp
  have k2: "\<forall>w'. tapes (hooks (MarkThenDelay 1 2 700) w') = tapes w' \<and>
         programs (hooks (MarkThenDelay 1 2 700) w') = programs w'"
    using keep [OF reg] by blast
  have fr: "tapes (Simulator_stop hooks running_world) = tapes running_world"
           "programs (Simulator_stop hooks running_world) = programs running_world"
    using Simulator_stop_frame [of running_world hooks, OF keep] by blast+
  show ?thesis
    using reg k2 fr rest by blast
qed

text \<open>
  C6 (amended). Calling \<^verbatim>\<open>stop()\<close> twice in a row gives the same state as calling it
  once, provided the registered done continuation does not change the simulator object.
  A \<^verbatim>\<open>run()\<close> that takes effect registers its continuation in place of any earlier one,
  and the continuation registered at the time of the first \<^verbatim>\<open>stop()\<close>, and nothing else,
  is invoked exactly once by the two calls together (shown for the recording callback
  \<open>Mark n\<close>).
\<close>

theorem Simulator_stop_idempotent:
  "((\<forall>d w'. doneCallback (simulator w) = Some d \<longrightarrow> simulator (user d w') = simulator w') \<longrightarrow>
      Simulator_stop user (Simulator_stop user w) = Simulator_stop user w) \<and>
   (\<not> isRunning (simulator w) \<longrightarrow>
      doneCallback (simulator (Simulator_run p t speed opt_done w)) = opt_done) \<and>
   (doneCallback (simulator v) = Some (Mark n) \<longrightarrow>
      ext (Simulator_stop hooks v) = ext v @ [n] \<and>
      ext (Simulator_stop hooks (Simulator_stop hooks v)) = ext v @ [n]) \<and>
   (doneCallback (simulator v) = None \<longrightarrow>
      ext (Simulator_stop hooks (Simulator_stop hooks v)) = ext v)"
proof (intro conjI impI)
  assume a: "\<forall>d w'. doneCallback (simulator w) = Some d \<longrightarrow> simulator (user d w') = simulator w'"
  then have "\<And>d w'. doneCallback (simulator w) = Some d \<Longrightarrow> simulator (user d w') = simulator w'"
    by blast
  from stop_idle_after [of w user, OF this]
  show "Simulator_stop user (Simulator_stop user w) = Simulator_stop user w"
    by (intro stop_no_callback) simp_all
next
  assume "\<not> isRunning (simulator w)"
  then show "doneCallback (simulator (Simulator_run p t speed opt_done w)) = opt_done"
    by (simp add: Simulator_run_def Let_def sched_def)
next
  assume d: "doneCallback (simulator v) = Some (Mark n)"
  then show "ext (Simulator_stop hooks v) = ext v @ [n]"
    by (simp add: Simulator_stop_def Let_def)
  from d show "ext (Simulator_stop hooks (Simulator_stop hooks v)) = ext v @ [n]"
    by (simp add: Simulator_stop_def Let_def)
next
  assume "doneCallback (simulator v) = None"
  then show "ext (Simulator_stop hooks (Simulator_stop hooks v)) = ext v"
    by (simp add: Simulator_stop_def Let_def)
qed

theorem Simulator_stop_idempotent_witness:
  "(\<forall>d w'. simulator (hooks (Mark d) w') = simulator w') \<and>
   doneCallback (simulator stop_fixture) = Some (Mark 5) \<and>
   \<not> isRunning (simulator (world_of loop_program)) \<and>
   Simulator_stop hooks (Simulator_stop hooks stop_fixture) = Simulator_stop hooks stop_fixture \<and>
   ext (Simulator_stop hooks stop_fixture) = [5] \<and>
   ext (Simulator_stop hooks (Simulator_stop hooks stop_fixture)) = [5] \<and>
   doneCallback (simulator (world_of loop_program)) = None \<and>
   ext (Simulator_stop hooks (Simulator_stop hooks (world_of loop_program))) = []"
proof -
  have idle: "\<not> isRunning (simulator (world_of loop_program))"
    "doneCallback (simulator (world_of loop_program)) = None"
    "ext (world_of loop_program) = []"
    by (simp_all add: world_of_def simulator_init_def isRunning_def)
  note I1 = Simulator_stop_idempotent
    [of stop_fixture hooks 0 0 NORMAL None stop_fixture 5]
  note I2 = Simulator_stop_idempotent
    [of "world_of loop_program" hooks 0 0 NORMAL "Some (Mark 5)" "world_of loop_program" 0]
  have reg: "doneCallback (simulator stop_fixture) = Some (Mark 5)"
    unfolding stop_fixture_def using I2 idle by blast
  have e0: "ext stop_fixture = []"
    by (simp add: stop_fixture_def Simulator_run_def Let_def sched_def idle)
  have pure: "\<forall>d w'. simulator (hooks (Mark d) w') = simulator w'"
    by simp
  have pure': "\<forall>d w'. doneCallback (simulator stop_fixture) = Some d \<longrightarrow>
      simulator (hooks d w') = simulator w'"
    by (simp add: reg)
  have twice: "Simulator_stop hooks (Simulator_stop hooks stop_fixture) = Simulator_stop hooks stop_fixture"
    using I1 pure' by blast
  have once: "ext (Simulator_stop hooks stop_fixture) = [5]"
    "ext (Simulator_stop hooks (Simulator_stop hooks stop_fixture)) = [5]"
    using I1 reg e0 by auto
  have "ext (Simulator_stop hooks (Simulator_stop hooks (world_of loop_program)))
          = ext (world_of loop_program)"
    using I2 idle(2) by blast
  then have none: "ext (Simulator_stop hooks (Simulator_stop hooks (world_of loop_program))) = []"
    by (simp only: idle(3))
  show ?thesis
    using pure idle reg twice once none by blast
qed

text \<open>
  C6 as stated fails: the continuation \<open>Mark 1\<close> is registered by a \<^verbatim>\<open>run()\<close> that takes
  effect; after \<^verbatim>\<open>pause()\<close> a second \<^verbatim>\<open>run()\<close> takes effect and registers \<open>Mark 2\<close>; two
  calls of \<^verbatim>\<open>stop()\<close> invoke \<open>Mark 2\<close> once and \<open>Mark 1\<close> never, and leave the simulator
  idle with no continuation and no pending event. And with a continuation that calls
  \<^verbatim>\<open>run()\<close> itself, one \<^verbatim>\<open>stop()\<close> leaves the new run pending while a second
  \<^verbatim>\<open>stop()\<close> cancels it, so that twice is not the same as once.
\<close>

theorem done_callback_replaced_counterexample:
  "doneCallback (simulator (Simulator_run 0 0 NORMAL (Some (Mark 1)) (world_of loop_program)))
     = Some (Mark 1) \<and>
   doneCallback (simulator replaced_run) = Some (Mark 2) \<and>
   ext (Simulator_stop hooks (Simulator_stop hooks replaced_run)) = [2] \<and>
   doneCallback (simulator (Simulator_stop hooks (Simulator_stop hooks replaced_run))) = None \<and>
   queue (anim (Simulator_stop hooks (Simulator_stop hooks replaced_run))) = [] \<and>
   isRunning (simulator (Simulator_stop hooks chained_run)) \<and>
   stepEvents (Simulator_stop hooks chained_run) = 1 \<and>
   \<not> isRunning (simulator (Simulator_stop hooks (Simulator_stop hooks chained_run))) \<and>
   stepEvents (Simulator_stop hooks (Simulator_stop hooks chained_run)) = 0"
  by code_simp

section \<open>Steps of the interpreter\<close>

text \<open>
  C9. Take a step that reaches the dispatch (it passes the guard and does not halt) and
  whose current operation, after a leading editable marker is stripped, is \<open>D\<close> or
  \<open>D\<close> followed by \<open>0\<close>, \<open>1\<close> or \<open>_\<close>. If the operation is the bare \<open>D\<close> or the symbol
  under the head equals the operation's symbol, the program after the step is the result
  of the one call \<open>setNextPos (track + 1, index)\<close> at the current position (which, by
  \<open>setNextPos\<close>, stores that position or, when it lies outside the program, sets the end
  flag), with no implicit advance; otherwise it is the result of the implicit advance
  \<open>setNextPos (track, index + 1)\<close> alone. The tapes are unchanged in both cases.
\<close>

theorem step_branch_down:
  assumes "stepRuns w t p P1"
    and "getCurOp P1 = Inr rawOp"
    and "stripEditable rawOp = Some op"
    and "op \<in> {''D'', ''D0'', ''D1'', ''D_''}"
  shows "\<exists>w'. Simulator_step user w = Inr w' \<and>
           tapes w' = tapes w \<and>
           programs w' = (programs w)(p :=
             (if op = ''D'' \<or> getCurSymbol (tapes w t) = tl op
              then setNextPos (numOpsPerTrack w) (curTrack P1 + 1) (curTrackPos P1) P1
              else setNextPos (numOpsPerTrack w) (curTrack P1) (curTrackPos P1 + 1) P1))"
proof -
  from step_runs [OF assms(1), of user] assms(2)
  obtain w' where st: "Simulator_step user w = Inr w'"
    and w': "w' =
       (let w2 = w\<lparr> simulator := (simulator w)\<lparr> stepTimerId := - 1 \<rparr>,
                     programs := (programs w)(p := P1) \<rparr>;
            w3 = (if stepLimit (simulator w) > 0 then speedUpBoringLoops p w2 else w2);
            w4 = w3\<lparr> simulator := (simulator w3)\<lparr> stepCount := stepCount (simulator w3) + 1 \<rparr> \<rparr>;
            op = stripEditable rawOp;
            d = dispatchOp p t (opText op) w4;
            w5 = (if snd d
                  then updProgram p (setNextPos (numOpsPerTrack (fst d))
                         (getCurTrack (programs (fst d) p))
                         (getCurTrackPos (programs (fst d) p) + 1)) (fst d)
                  else fst d);
            r = sched SimStep (stepTimeFor op (sim_speeds (simulator w5))) w5
        in (snd r)\<lparr> simulator := (simulator (snd r))\<lparr> stepTimerId := fst r \<rparr> \<rparr>)"
    by (auto simp: Let_def)
  from assms(4) have "op = ''D'' \<or> op = ''D0'' \<or> op = ''D1'' \<or> op = ''D_''"
    by simp
  then have both: "tapes w' = tapes w \<and> programs w' = (programs w)(p :=
             (if op = ''D'' \<or> getCurSymbol (tapes w t) = tl op
              then setNextPos (numOpsPerTrack w) (curTrack P1 + 1) (curTrackPos P1) P1
              else setNextPos (numOpsPerTrack w) (curTrack P1) (curTrackPos P1 + 1) P1))"
    using assms(3) unfolding w'
    by (elim disjE)
       (simp_all add: Let_def opText_def dispatchOp_down updProgram_def
          getCurTrack_def getCurTrackPos_def step_frame)
  then have t: "tapes w' = tapes w" and pr: "programs w' = (programs w)(p :=
             (if op = ''D'' \<or> getCurSymbol (tapes w t) = tl op
              then setNextPos (numOpsPerTrack w) (curTrack P1 + 1) (curTrackPos P1) P1
              else setNextPos (numOpsPerTrack w) (curTrack P1) (curTrackPos P1 + 1) P1))"
    by blast+
  from st t pr show ?thesis by blast
qed

theorem step_branch_down_witness:
  "stepRuns branch_world 0 0 (programs branch_world 0) \<and>
   getCurOp (programs branch_world 0) = Inr (Some ''*D_'') \<and>
   stripEditable (Some ''*D_'') = Some ''D_'' \<and>
   ''D_'' \<in> {''D'', ''D0'', ''D1'', ''D_''} \<and>
   getCurSymbol (tapes branch_world 0) = ''_'' \<and>
   (\<exists>w'. Simulator_step hooks branch_world = Inr w' \<and>
         tapes w' = tapes branch_world \<and>
         programs w' = (programs branch_world)(0 :=
           setNextPos 8 1 0 (programs branch_world 0))) \<and>
   nextTrack (setNextPos 8 1 0 (programs branch_world 0)) = 1 \<and>
   nextTrackPos (setNextPos 8 1 0 (programs branch_world 0)) = 0 \<and>
   \<not> nextPosIsEnd (setNextPos 8 1 0 (programs branch_world 0))"
proof -
  have h1: "stepRuns branch_world 0 0 (programs branch_world 0)"
    unfolding stepRuns_def by code_simp
  have h2: "getCurOp (programs branch_world 0) = Inr (Some ''*D_'')"
    by code_simp
  have h3: "stripEditable (Some ''*D_'') = Some ''D_''"
    by (simp add: stripEditable_def)
  have h4: "''D_'' \<in> {''D'', ''D0'', ''D1'', ''D_''}"
    by simp
  have h5: "getCurSymbol (tapes branch_world 0) = ''_''"
    by code_simp
  have h6: "numOpsPerTrack branch_world = 8" "curTrack (programs branch_world 0) = 0"
    "curTrackPos (programs branch_world 0) = 0"
    by code_simp+
  from step_branch_down [OF h1 h2 h3 h4, of hooks]
  have "\<exists>w'. Simulator_step hooks branch_world = Inr w' \<and>
         tapes w' = tapes branch_world \<and>
         programs w' = (programs branch_world)(0 :=
           setNextPos 8 1 0 (programs branch_world 0))"
    by (simp add: h5 h6)
  moreover have "nextTrack (setNextPos 8 1 0 (programs branch_world 0)) = 1"
    "nextTrackPos (setNextPos 8 1 0 (programs branch_world 0)) = 0"
    "\<not> nextPosIsEnd (setNextPos 8 1 0 (programs branch_world 0))"
    by code_simp+
  ultimately show ?thesis using h1 h2 h3 h4 h5 by blast
qed

section \<open>Boring loops\<close>

text \<open>
  What \<^verbatim>\<open>speedUpBoringLoops_\<close> does in a step of a run with a step limit: the step raises
  the run count of the position it lands on by one and sets the speed from the count
  that position had before, Ludicrous above 6, Fast at 5 or 6, else the speed as it
  was. \<^verbatim>\<open>run()\<close> resets the counts and the speed; \<^verbatim>\<open>pause()\<close>, \<^verbatim>\<open>resumeIfPaused()\<close> and
  (with a done callback that leaves the simulator alone) \<^verbatim>\<open>stop()\<close> keep them.
\<close>

lemma speed_from_run_count:
  "(stepRuns w t p P1 \<and> 0 < stepLimit (simulator w) \<longrightarrow>
      (\<exists>w'. Simulator_step user w = Inr w' \<and>
         runCount (simulator w') =
           (runCount (simulator w))((curTrack P1, curTrackPos P1) :=
              runCount (simulator w) (curTrack P1, curTrackPos P1) + 1) \<and>
         sim_speeds (simulator w') =
           (if runCount (simulator w) (curTrack P1, curTrackPos P1) > 6
            then SPEED_CONFIG LUDICROUS
            else if runCount (simulator w) (curTrack P1, curTrackPos P1) > 4
            then SPEED_CONFIG FAST
            else sim_speeds (simulator w)))) \<and>
   (\<not> isRunning (simulator v) \<longrightarrow>
      runCount (simulator (Simulator_run p' t' speed opt_done v)) = (\<lambda>_. 0) \<and>
      sim_speeds (simulator (Simulator_run p' t' speed opt_done v)) = SPEED_CONFIG speed) \<and>
   runCount (simulator (Simulator_pause v)) = runCount (simulator v) \<and>
   sim_speeds (simulator (Simulator_pause v)) = sim_speeds (simulator v) \<and>
   runCount (simulator (resumeIfPaused v)) = runCount (simulator v) \<and>
   sim_speeds (simulator (resumeIfPaused v)) = sim_speeds (simulator v) \<and>
   ((\<forall>d w'. simulator (user' d w') = simulator w') \<longrightarrow>
      runCount (simulator (Simulator_stop user' v)) = runCount (simulator v) \<and>
      sim_speeds (simulator (Simulator_stop user' v)) = sim_speeds (simulator v))"
proof (intro conjI impI)
  assume h: "stepRuns w t p P1 \<and> 0 < stepLimit (simulator w)"
  then have r: "stepRuns w t p P1" and l: "0 < stepLimit (simulator w)" by simp_all
  from step_runs [OF r, of user] obtain rawOp w' where
    st: "Simulator_step user w = Inr w'" and
    w': "w' =
       (let w2 = w\<lparr> simulator := (simulator w)\<lparr> stepTimerId := - 1 \<rparr>,
                     programs := (programs w)(p := P1) \<rparr>;
            w3 = (if stepLimit (simulator w) > 0 then speedUpBoringLoops p w2 else w2);
            w4 = w3\<lparr> simulator := (simulator w3)\<lparr> stepCount := stepCount (simulator w3) + 1 \<rparr> \<rparr>;
            op = stripEditable rawOp;
            d = dispatchOp p t (opText op) w4;
            w5 = (if snd d
                  then updProgram p (setNextPos (numOpsPerTrack (fst d))
                         (getCurTrack (programs (fst d) p))
                         (getCurTrackPos (programs (fst d) p) + 1)) (fst d)
                  else fst d);
            r = sched SimStep (stepTimeFor op (sim_speeds (simulator w5))) w5
        in (snd r)\<lparr> simulator := (simulator (snd r))\<lparr> stepTimerId := fst r \<rparr> \<rparr>)"
    by (auto simp: Let_def)
  have rc: "runCount (simulator w') =
           (runCount (simulator w))((curTrack P1, curTrackPos P1) :=
              runCount (simulator w) (curTrack P1, curTrackPos P1) + 1)"
    unfolding w' using l
    by (simp add: Let_def updProgram_def speedUpBoringLoops_def getCurTrack_def
        getCurTrackPos_def step_frame)
  have sp: "sim_speeds (simulator w') =
           (if runCount (simulator w) (curTrack P1, curTrackPos P1) > 6
            then SPEED_CONFIG LUDICROUS
            else if runCount (simulator w) (curTrack P1, curTrackPos P1) > 4
            then SPEED_CONFIG FAST
            else sim_speeds (simulator w))"
    unfolding w' using l
    by (simp add: Let_def updProgram_def speedUpBoringLoops_def getCurTrack_def
        getCurTrackPos_def VERY_BORING_REPEAT_COUNT_def SOMEWHAT_BORING_REPEAT_COUNT_def
        step_frame)
  from st rc sp show "\<exists>w'. Simulator_step user w = Inr w' \<and>
         runCount (simulator w') =
           (runCount (simulator w))((curTrack P1, curTrackPos P1) :=
              runCount (simulator w) (curTrack P1, curTrackPos P1) + 1) \<and>
         sim_speeds (simulator w') =
           (if runCount (simulator w) (curTrack P1, curTrackPos P1) > 6
            then SPEED_CONFIG LUDICROUS
            else if runCount (simulator w) (curTrack P1, curTrackPos P1) > 4
            then SPEED_CONFIG FAST
            else sim_speeds (simulator w))"
    by blast
next
  assume n: "\<not> isRunning (simulator v)"
  then show "runCount (simulator (Simulator_run p' t' speed opt_done v)) = (\<lambda>_. 0)"
    and "sim_speeds (simulator (Simulator_run p' t' speed opt_done v)) = SPEED_CONFIG speed"
    by (simp_all add: Simulator_run_def Let_def step_frame)
next
  assume u: "\<forall>d w'. simulator (user' d w') = simulator w'"
  then show "runCount (simulator (Simulator_stop user' v)) = runCount (simulator v)"
    and "sim_speeds (simulator (Simulator_stop user' v)) = sim_speeds (simulator v)"
    by (simp_all add: Simulator_stop_def Let_def split: option.splits)
qed (simp_all add: Simulator_pause_def resumeIfPaused_def Let_def step_frame)

text \<open>
  C3 asks that the speed forced by the accelerator never reverts to a slower profile
  within one run. In a run with step limit 40, started at Fast, step 32 lands on
  position (0, 0) for the 8th time and sets Ludicrous, step 33 keeps it, and step 34
  lands on position (1, 1) for the 6th time and sets Fast again, while the simulator is
  still running the same run: the branch for a somewhat boring position assigns Fast
  whatever the speed is. For the same reason the endless loop started at Ludicrous with
  step limit 40 is slowed down to Fast from step 16 to step 21. The function is
  documented to speed boring loops up, for the rest of the run.
\<close>

theorem boring_loop_speed_reverts:
  "drop 31 (history 478 hooks 17 17 nested_run) =
     [(32, True, SPEED_CONFIG LUDICROUS, 13, []),
      (33, True, SPEED_CONFIG LUDICROUS, 13, []),
      (34, True, SPEED_CONFIG FAST, 14, [])] \<and>
   map (\<lambda>s. (fst s, fst (snd (snd s)))) (drop 14 (history 165 hooks 17 17 limit40_run)) =
     [(15, SPEED_CONFIG LUDICROUS), (16, SPEED_CONFIG FAST), (17, SPEED_CONFIG FAST),
      (18, SPEED_CONFIG FAST), (19, SPEED_CONFIG FAST), (20, SPEED_CONFIG FAST),
      (21, SPEED_CONFIG FAST), (22, SPEED_CONFIG LUDICROUS)]"
  by code_simp

section \<open>Runs driven through the scheduler\<close>

text \<open>
  C1 asks for at most one pending step event after any sequence of \<^verbatim>\<open>run\<close>, \<^verbatim>\<open>pause\<close>,
  \<^verbatim>\<open>resumeIfPaused\<close> and \<^verbatim>\<open>stop\<close>. After \<^verbatim>\<open>run(); pause(); run(); resumeIfPaused()\<close> the
  queue holds two step events: \<^verbatim>\<open>run\<close> leaves \<^verbatim>\<open>paused_\<close> set and \<^verbatim>\<open>resumeIfPaused\<close>
  schedules a step without asking \<^verbatim>\<open>isRunning()\<close>. Both fire in the next frame, which
  therefore executes two steps (the head has moved) and leaves two step events pending.
\<close>

theorem resume_after_rerun_two_step_events:
  "stepEvents double_resume = 2 \<and>
   history 1 hooks 17 17 double_resume = [(2, True, SPEED_CONFIG NORMAL, 1, [])]"
  by code_simp

text \<open>
  C2 asks that a run with step limit 40 never executes a 41st step. The endless loop
  \<open>'' R B2\<close> with limit 40 executes step 40, then step 41 (its \<open>R\<close> moves the head from
  square 13 to 14 while the simulator is still running), and halts only in the step
  after that, calling the done callback once with the step count at 41: the limit is
  compared before the count is incremented.
\<close>

theorem step_limit_40_runs_41_steps:
  "drop 39 (history 283 hooks 17 17 limit40_run) =
     [(40, True, SPEED_CONFIG LUDICROUS, 13, []),
      (41, True, SPEED_CONFIG LUDICROUS, 14, []),
      (41, False, SPEED_CONFIG LUDICROUS, 14, [7])]"
  by code_simp

section \<open>Scheduling with duration 0\<close>




section \<open>Cancelling from inside a drain\<close>

text \<open>
  C5 asks that cancelling the id of an event that has already fired changes nothing,
  also from inside a callback of the current drain. With events 1, 2 and 3 due in the
  same frame, where the callback of 2 cancels id 1: event 1 has fired but is still in the
  queue, \<^verbatim>\<open>cancel\<close> splices it out, the loop index skips event 3, and the final
  \<^verbatim>\<open>splice(0, numFrames)\<close> removes it. Callback 3 is never invoked and no event is left.
\<close>

theorem cancel_fired_drops_pending:
  "map eventId (queue (anim cancel_fired)) = [1, 2, 3] \<and>
   frame_result cancel_fired = Some (Inr ([1, 2], []))"
  by code_simp

text \<open>Cancelling an id that is not in the queue is a no-op.\<close>

lemma cancel_unknown:
  "e \<notin> eventId ` set (queue a) \<Longrightarrow> cancel e a = a"
proof -
  have "e \<notin> eventId ` set fs \<Longrightarrow> cancel_frames e fs = fs" for fs :: "'a frame list"
    by (induction fs) auto
  then show "e \<notin> eventId ` set (queue a) \<Longrightarrow> cancel e a = a"
    by (simp add: cancel_def)
qed

section \<open>The adaptive frame rate\<close>

text \<open>
  C7 (amended). Over any execution of the tick loop the tick period never decreases
  except through \<^verbatim>\<open>reset()\<close>, which restores the fastest rate (1000/60 ms): the throttle
  never lowers it, no other scheduler operation writes it, and so every frame whose
  callbacks leave it alone ends with a period at least as large as before. Each time the
  overrun counter exceeds its threshold of 20 the period becomes the smaller of 1.2 times
  its value and the slowest rate (1000/20 ms), and the counter is reset to zero: this is a
  strict increase while the period is below the slowest rate, and no change once the
  period has reached it.
\<close>

theorem throttle_period_monotone:
  "(throttle_inv a \<longrightarrow>
      throttle_inv (throttleFrameRate now a) \<and>
      msPerFrame a \<le> msPerFrame (throttleFrameRate now a) \<and>
      (overrun now a \<longrightarrow>
         msPerFrame (throttleFrameRate now a) = min MIN_FPS_MS (msPerFrame a * (12 / 10)) \<and>
         tooSlowTicks (throttleFrameRate now a) = 0 \<and>
         (msPerFrame a < MIN_FPS_MS \<longrightarrow> msPerFrame a < msPerFrame (throttleFrameRate now a)) \<and>
         (msPerFrame a = MIN_FPS_MS \<longrightarrow> msPerFrame (throttleFrameRate now a) = MIN_FPS_MS)) \<and>
      (\<not> overrun now a \<longrightarrow> msPerFrame (throttleFrameRate now a) = msPerFrame a)) \<and>
   ((\<forall>c w'. msPerFrame (anim (user c w')) = msPerFrame (anim w')) \<and>
    throttle_inv (anim w) \<and> tick user now w = Some (Inr w1) \<longrightarrow>
      throttle_inv (anim w1) \<and> msPerFrame (anim w) \<le> msPerFrame (anim w1)) \<and>
   msPerFrame (anim_reset b) = MAX_FPS_MS \<and> throttle_inv (anim_reset b) \<and>
   msPerFrame (snd (delayTicks cb n b)) = msPerFrame b \<and>
   msPerFrame (snd (delay cb ms b)) = msPerFrame b \<and>
   msPerFrame (cancel e b) = msPerFrame b \<and>
   msPerFrame (anim_start b) = msPerFrame b \<and>
   msPerFrame (anim_stop b) = msPerFrame b"
proof -
  note mono = throttle_mono
  have part1: "throttle_inv a \<longrightarrow>
      throttle_inv (throttleFrameRate now a) \<and>
      msPerFrame a \<le> msPerFrame (throttleFrameRate now a) \<and>
      (overrun now a \<longrightarrow>
         msPerFrame (throttleFrameRate now a) = min MIN_FPS_MS (msPerFrame a * (12 / 10)) \<and>
         tooSlowTicks (throttleFrameRate now a) = 0 \<and>
         (msPerFrame a < MIN_FPS_MS \<longrightarrow> msPerFrame a < msPerFrame (throttleFrameRate now a)) \<and>
         (msPerFrame a = MIN_FPS_MS \<longrightarrow> msPerFrame (throttleFrameRate now a) = MIN_FPS_MS)) \<and>
      (\<not> overrun now a \<longrightarrow> msPerFrame (throttleFrameRate now a) = msPerFrame a)"
  proof (intro impI conjI)
    assume inv: "throttle_inv a"
    from mono [OF inv] show "throttle_inv (throttleFrameRate now a)"
      and "msPerFrame a \<le> msPerFrame (throttleFrameRate now a)" by simp_all
    show "msPerFrame (throttleFrameRate now a) = msPerFrame a" if "\<not> overrun now a"
      using that by (simp add: throttle_cases)
    {
      assume ov: "overrun now a"
      then show "msPerFrame (throttleFrameRate now a) = min MIN_FPS_MS (msPerFrame a * (12 / 10))"
        and "tooSlowTicks (throttleFrameRate now a) = 0"
        by (simp_all add: throttle_cases)
      from ov inv show "msPerFrame a < msPerFrame (throttleFrameRate now a)"
        if "msPerFrame a < MIN_FPS_MS"
        using that
        by (auto simp add: throttle_cases throttle_inv_def MIN_FPS_MS_def MAX_FPS_MS_def)
      from ov show "msPerFrame (throttleFrameRate now a) = MIN_FPS_MS"
        if "msPerFrame a = MIN_FPS_MS"
        using that by (simp add: throttle_cases MIN_FPS_MS_def)
    }
  qed
  have part2: "(\<forall>c w'. msPerFrame (anim (user c w')) = msPerFrame (anim w')) \<and>
    throttle_inv (anim w) \<and> tick user now w = Some (Inr w1) \<longrightarrow>
      throttle_inv (anim w1) \<and> msPerFrame (anim w) \<le> msPerFrame (anim w1)"
  proof (intro impI, elim conjE)
    assume u: "\<forall>c w'. msPerFrame (anim (user c w')) = msPerFrame (anim w')"
      and inv: "throttle_inv (anim w)" and t: "tick user now w = Some (Inr w1)"
    from u have u': "\<And>c w'. msPerFrame (anim (user c w')) = msPerFrame (anim w')" by blast
    from tick_period [OF u' t] mono [OF inv, of now] inv
    show "throttle_inv (anim w1) \<and> msPerFrame (anim w) \<le> msPerFrame (anim w1)"
      by (auto simp add: throttle_inv_def)
  qed
  have part3: "msPerFrame (anim_reset b) = MAX_FPS_MS \<and> throttle_inv (anim_reset b) \<and>
   msPerFrame (snd (delayTicks cb n b)) = msPerFrame b \<and>
   msPerFrame (snd (delay cb ms b)) = msPerFrame b \<and>
   msPerFrame (cancel e b) = msPerFrame b \<and>
   msPerFrame (anim_start b) = msPerFrame b \<and>
   msPerFrame (anim_stop b) = msPerFrame b"
    by (simp add: anim_reset_def anim_stop_def resetFpsController_def throttle_inv_def
        MIN_FPS_MS_def MAX_FPS_MS_def anim_start_def period_frame)
  from part1 part2 part3 show ?thesis by blast
qed

theorem throttle_period_monotone_witness:
  "throttle_inv nearly_overrun \<and> overrun 1000 nearly_overrun \<and>
   msPerFrame nearly_overrun = MAX_FPS_MS \<and> msPerFrame nearly_overrun < MIN_FPS_MS \<and>
   msPerFrame (throttleFrameRate 1000 nearly_overrun) = 20 \<and>
   tooSlowTicks (throttleFrameRate 1000 nearly_overrun) = 0 \<and>
   msPerFrame nearly_overrun < msPerFrame (throttleFrameRate 1000 nearly_overrun) \<and>
   \<not> overrun 18 nearly_overrun \<and>
   msPerFrame (throttleFrameRate 18 nearly_overrun) = msPerFrame nearly_overrun \<and>
   (\<forall>c w'. msPerFrame (anim (hooks c w')) = msPerFrame (anim w')) \<and>
   throttle_inv (anim (world_of loop_program)) \<and>
   (\<exists>w1. tick hooks 17 (world_of loop_program) = Some (Inr w1) \<and>
         throttle_inv (anim w1) \<and>
         msPerFrame (anim (world_of loop_program)) \<le> msPerFrame (anim w1))"
proof -
  have a1: "throttle_inv nearly_overrun" "overrun 1000 nearly_overrun"
    "msPerFrame nearly_overrun = MAX_FPS_MS" "msPerFrame nearly_overrun < MIN_FPS_MS"
    "\<not> overrun 18 nearly_overrun"
    by (simp_all add: nearly_overrun_def throttle_inv_def overrun_def anim_reset_def
        anim_stop_def resetFpsController_def anim_init_def MAX_FPS_MS_def MIN_FPS_MS_def)
  note T1 = throttle_period_monotone
    [of nearly_overrun 1000 hooks "world_of loop_program" undefined anim_init Paint 0 0 0]
  note T2 = throttle_period_monotone
    [of nearly_overrun 18 hooks "world_of loop_program" undefined anim_init Paint 0 0 0]
  have v: "min MIN_FPS_MS (msPerFrame nearly_overrun * (12 / 10)) = 20"
    by (simp add: a1(3) MAX_FPS_MS_def MIN_FPS_MS_def)
  from T1 a1 have r1: "msPerFrame (throttleFrameRate 1000 nearly_overrun) = 20"
    "tooSlowTicks (throttleFrameRate 1000 nearly_overrun) = 0"
    "msPerFrame nearly_overrun < msPerFrame (throttleFrameRate 1000 nearly_overrun)"
    unfolding v [symmetric] by blast+
  from T2 a1 have r2: "msPerFrame (throttleFrameRate 18 nearly_overrun) = msPerFrame nearly_overrun"
    by blast
  have u: "\<forall>c w'. msPerFrame (anim (hooks c w')) = msPerFrame (anim w')"
  proof (intro allI)
    fix c w' show "msPerFrame (anim (hooks c w')) = msPerFrame (anim w')"
      by (cases c) (simp_all add: period_frame run_period)
  qed
  have i0: "throttle_inv (anim (world_of loop_program))"
    by (simp add: world_of_def throttle_inv_def anim_reset_def anim_start_def
        anim_stop_def resetFpsController_def anim_init_def MAX_FPS_MS_def MIN_FPS_MS_def)
  have "case tick hooks 17 (world_of loop_program) of Some (Inr w1) \<Rightarrow> True | _ \<Rightarrow> False"
    by code_simp
  then obtain w1 where t: "tick hooks 17 (world_of loop_program) = Some (Inr w1)"
    by (auto split: option.splits sum.splits)
  from throttle_period_monotone
    [of nearly_overrun 17 hooks "world_of loop_program" w1 anim_init Paint 0 0 0] u i0 t
  have "throttle_inv (anim w1) \<and> msPerFrame (anim (world_of loop_program)) \<le> msPerFrame (anim w1)"
    by blast
  with t have r3: "\<exists>w1. tick hooks 17 (world_of loop_program) = Some (Inr w1) \<and>
         throttle_inv (anim w1) \<and>
         msPerFrame (anim (world_of loop_program)) \<le> msPerFrame (anim w1)"
    by blast
  from a1 r1 r2 u i0 r3 show ?thesis by blast
qed

text \<open>
  C7 as stated fails where the period is clamped: frames that arrive 100 ms apart drive
  the period from 1000/60 ms to the slowest rate; after 198 frames the period is 1000/20
  ms and the counter stands at 20; the next frame takes the counter over the threshold
  (it is reset to 0) and the period stays at 1000/20 ms instead of increasing.
\<close>

theorem throttle_clamped_counterexample:
  "throttle_state 198 = Some (MIN_FPS_MS, 20) \<and> throttle_state 199 = Some (MIN_FPS_MS, 0)"
  by code_simp

end
